theory Spec2Isabelle
  imports Main "HOL-Library.AList"
begin

section \<open>Alert entity (models/Alert.js)\<close>

text \<open>
  Modelled from the spec: the constants of \<^verbatim>\<open>config/constants\<close> (\<^verbatim>\<open>ALERT_STATES\<close>,
  \<^verbatim>\<open>SEVERITY_LEVELS\<close>, \<^verbatim>\<open>EVENT_TYPES\<close>) are required by every source file but are not
  among the sources. The spec lists the five statuses and the four severities; the event
  types are the five names \<^verbatim>\<open>Alert.js\<close> reads from \<^verbatim>\<open>EVENT_TYPES\<close>.
\<close>

datatype alert_state = OPEN | ESCALATED | AUTO_CLOSED | RESOLVED | EXPIRED

datatype severity_level = LOW | MEDIUM | HIGH | CRITICAL

datatype event_type = EV_CREATED | EV_ESCALATED | EV_AUTO_CLOSED | EV_RESOLVED | EV_EXPIRED

text \<open>
  Metadata values are the JSON primitives. A metadata object is an association list whose
  lookup is \<^const>\<open>map_of\<close>: an absent key reads as \<^const>\<open>None\<close> (JavaScript's
  \<^verbatim>\<open>undefined\<close>), and \<^verbatim>\<open>===\<close> on two reads is equality of the two options, so that
  \<^verbatim>\<open>undefined === undefined\<close> holds and \<^verbatim>\<open>null === undefined\<close> does not. Numbers are
  integers here (no \<^verbatim>\<open>NaN\<close>), and nested objects, which \<^verbatim>\<open>===\<close> compares by
  reference, are left out.
\<close>

datatype js_value = JBool bool | JStr string | JNum int | JNull

type_synonym metadata = "(string \<times> js_value) list"

text \<open>
  Times are milliseconds since the epoch, as \<^verbatim>\<open>Date.now()\<close> and
  \<^verbatim>\<open>new Date(iso).getTime()\<close> give them. A \<^verbatim>\<open>Date\<close> holds a time value of at most
  8.64e15 milliseconds either side of the epoch; \<^verbatim>\<open>new Date(x)\<close> for a number beyond
  that, and \<^verbatim>\<open>new Date(s)\<close> for a string that denotes no date, is an Invalid Date, whose
  time value is \<^verbatim>\<open>NaN\<close>: every comparison with it is false and arithmetic on it gives
  \<^verbatim>\<open>NaN\<close>. A timestamp field holds an ISO string; the model keeps the milliseconds it
  denotes, and a value outside the range stands for a string that denotes no date.
\<close>

definition validDate :: "int \<Rightarrow> bool" where
  "validDate t = (- 8640000000000000 \<le> t \<and> t \<le> 8640000000000000)"

text \<open>\<^verbatim>\<open>new Date(a) >= new Date(b)\<close> and \<^verbatim>\<open>new Date(a) < new Date(b)\<close>.\<close>

definition date_ge :: "int \<Rightarrow> int \<Rightarrow> bool" where
  "date_ge a b = (validDate a \<and> validDate b \<and> b \<le> a)"

definition date_lt :: "int \<Rightarrow> int \<Rightarrow> bool" where
  "date_lt a b = (validDate a \<and> validDate b \<and> a < b)"

record history_event =
  action :: event_type
  ev_timestamp :: int
  details :: string
  previousStatus :: "alert_state option"
  previousSeverity :: "severity_level option"

record alert =
  alertId :: string
  sourceType :: string
  severity :: severity_level
  timestamp :: int
  status :: alert_state
  metadata :: metadata
  history :: "history_event list"
  resolution :: "string option"
  resolvedAt :: "int option"
  expiredAt :: "int option"
  lastEscalatedAt :: "int option"
  escalationCount :: nat

text \<open>The two settings of \<^verbatim>\<open>process.env\<close> the lifecycle reads; the source's defaults
  are 60 minutes and 30 days.\<close>

record env =
  ESCALATION_COOLDOWN_MINUTES :: int
  ALERT_EXPIRY_DAYS :: int

definition default_env :: env where
  "default_env = \<lparr>ESCALATION_COOLDOWN_MINUTES = 60, ALERT_EXPIRY_DAYS = 30\<rparr>"

text \<open>Decimal rendering of the numbers the source interpolates into its reasons.\<close>

definition digit_char :: "nat \<Rightarrow> char" where
  "digit_char d = ''0123456789'' ! (d mod 10)"

function render_nat :: "nat \<Rightarrow> string" where
  "render_nat n = (if 10 \<le> n then render_nat (n div 10) @ [digit_char n] else [digit_char n])"
  by pat_completeness auto
termination
  by (relation "measure id") auto

declare render_nat.simps [simp del]

definition render_int :: "int \<Rightarrow> string" where
  "render_int i = (if 0 \<le> i then render_nat (nat i) else CHR ''-'' # render_nat (nat (- i)))"

definition addHistoryEvent ::
  "int \<Rightarrow> event_type \<Rightarrow> string \<Rightarrow> alert_state option \<Rightarrow> severity_level option \<Rightarrow> alert \<Rightarrow> alert" where
  "addHistoryEvent now act det prevStatus prevSeverity a =
     a\<lparr>history := history a @
        [\<lparr>action = act, ev_timestamp = now, details = det,
          previousStatus = prevStatus, previousSeverity = prevSeverity\<rparr>]\<rparr>"

text \<open>
  The constructor, for the data the controller passes to \<^verbatim>\<open>createAlert\<close>
  (\<^verbatim>\<open>{sourceType, severity, metadata}\<close>, no \<^verbatim>\<open>alertId\<close>): the identifier is the fresh
  \<^verbatim>\<open>uuidv4()\<close>, taken as a parameter, the timestamp is the clock, the status is OPEN and
  the creation event is recorded. Rebuilding an alert from a stored record
  (\<^verbatim>\<open>new Alert(data)\<close> with \<^verbatim>\<open>data.alertId\<close> set) copies every field and records no
  event; it is the identity on \<^typ>\<open>alert\<close>.
\<close>

definition newAlert ::
  "string \<Rightarrow> int \<Rightarrow> string \<Rightarrow> severity_level option \<Rightarrow> metadata option \<Rightarrow> alert" where
  "newAlert uuid now srcType sev md =
     addHistoryEvent now EV_CREATED ''Alert created'' None None
       \<lparr>alertId = uuid,
        sourceType = srcType,
        severity = (case sev of None \<Rightarrow> MEDIUM | Some s \<Rightarrow> s),
        timestamp = now,
        status = OPEN,
        metadata = (case md of None \<Rightarrow> [] | Some m \<Rightarrow> m),
        history = [],
        resolution = None,
        resolvedAt = None,
        expiredAt = None,
        lastEscalatedAt = None,
        escalationCount = 0\<rparr>"

definition escalate :: "int \<Rightarrow> severity_level \<Rightarrow> string \<Rightarrow> alert \<Rightarrow> alert" where
  "escalate now newSeverity reason a =
     addHistoryEvent now EV_ESCALATED reason (Some (status a)) (Some (severity a))
       (a\<lparr>status := ESCALATED,
          severity := newSeverity,
          lastEscalatedAt := Some now,
          escalationCount := escalationCount a + 1\<rparr>)"

definition autoClose :: "int \<Rightarrow> string \<Rightarrow> alert \<Rightarrow> alert" where
  "autoClose now reason a =
     addHistoryEvent now EV_AUTO_CLOSED reason (Some (status a)) None
       (a\<lparr>status := AUTO_CLOSED\<rparr>)"

definition resolve :: "int \<Rightarrow> string option \<Rightarrow> alert \<Rightarrow> alert" where
  "resolve now res a =
     addHistoryEvent now EV_RESOLVED
       (case res of None \<Rightarrow> ''Manually resolved''
        | Some r \<Rightarrow> if r = [] then ''Manually resolved'' else r)
       (Some (status a)) None
       (a\<lparr>status := RESOLVED, resolution := res, resolvedAt := Some now\<rparr>)"

definition expire :: "env \<Rightarrow> int \<Rightarrow> alert \<Rightarrow> alert" where
  "expire e now a =
     addHistoryEvent now EV_EXPIRED
       (''Alert expired after '' @ render_int (ALERT_EXPIRY_DAYS e) @ '' days'')
       (Some (status a)) None
       (a\<lparr>status := EXPIRED, expiredAt := Some now\<rparr>)"

definition isActive :: "alert \<Rightarrow> bool" where
  "isActive a = (status a \<noteq> RESOLVED \<and> status a \<noteq> AUTO_CLOSED \<and> status a \<noteq> EXPIRED)"

definition canEscalate :: "env \<Rightarrow> int \<Rightarrow> alert \<Rightarrow> bool" where
  "canEscalate e now a =
     (case lastEscalatedAt a of
        None \<Rightarrow> True
      | Some t \<Rightarrow> validDate t \<and> now - t > ESCALATION_COOLDOWN_MINUTES e * 60 * 1000)"

section \<open>Rule engine (RuleEngine)\<close>

text \<open>
  A rule is the JSON object of \<^verbatim>\<open>rules.json\<close>; its numeric fields and its auto-close key
  are optional. The source tests them by truthiness, so a field that is absent and a
  field that is \<^verbatim>\<open>0\<close> (or the empty string) are both skipped.
\<close>

record rule =
  escalate_if_count :: "int option"
  window_mins :: "int option"
  escalate_if_days :: "int option"
  escalate_to_severity :: severity_level
  auto_close_if :: "string option"

type_synonym rule_store = "(string \<times> rule) list"

definition getDefaultRules :: rule_store where
  "getDefaultRules =
    [(''overspeed'',
        \<lparr>escalate_if_count = Some 3, window_mins = Some 60, escalate_if_days = None,
         escalate_to_severity = CRITICAL, auto_close_if = Some ''speed_normalized''\<rparr>),
     (''feedback_negative'',
        \<lparr>escalate_if_count = Some 2, window_mins = Some 1440, escalate_if_days = None,
         escalate_to_severity = HIGH, auto_close_if = Some ''feedback_resolved''\<rparr>),
     (''compliance'',
        \<lparr>escalate_if_count = None, window_mins = None, escalate_if_days = Some 7,
         escalate_to_severity = HIGH, auto_close_if = Some ''document_valid''\<rparr>),
     (''document_expiry'',
        \<lparr>escalate_if_count = None, window_mins = None, escalate_if_days = Some 3,
         escalate_to_severity = CRITICAL, auto_close_if = Some ''document_renewed''\<rparr>),
     (''vehicle_maintenance'',
        \<lparr>escalate_if_count = None, window_mins = None, escalate_if_days = Some 5,
         escalate_to_severity = HIGH, auto_close_if = Some ''maintenance_completed''\<rparr>),
     (''driver_fatigue'',
        \<lparr>escalate_if_count = Some 1, window_mins = Some 30, escalate_if_days = None,
         escalate_to_severity = CRITICAL, auto_close_if = Some ''driver_rested''\<rparr>)]"

text \<open>\<^verbatim>\<open>updateRules\<close>: the shallow merge \<^verbatim>\<open>{...this.rules, ...newRules}\<close>; under
  \<^const>\<open>map_of\<close> the entries of \<open>newRules\<close> come first and so win.\<close>

definition updateRules :: "rule_store \<Rightarrow> rule_store \<Rightarrow> rule_store" where
  "updateRules newRules rules = newRules @ rules"

text \<open>The action object \<^verbatim>\<open>{type, newStatus, newSeverity, reason}\<close>; \<^verbatim>\<open>newStatus\<close> is fixed
  by the type (ESCALATED, AUTO_CLOSED) and is not read by \<^verbatim>\<open>executeAction\<close>.\<close>

datatype rule_action =
    Escalate (newSeverity: severity_level) (esc_reason: string)
  | Auto_close (close_reason: string)

definition is_escalate :: "rule_action option \<Rightarrow> bool" where
  "is_escalate r = (case r of Some (Escalate s t) \<Rightarrow> True | _ \<Rightarrow> False)"

definition is_auto_close :: "rule_action option \<Rightarrow> bool" where
  "is_auto_close r = (case r of Some (Auto_close t) \<Rightarrow> True | _ \<Rightarrow> False)"

text \<open>The filter of the count-in-window rule, for a window of \<open>w\<close> minutes ending at
  \<open>now\<close>; the source names its result \<^verbatim>\<open>recentAlerts\<close>.\<close>

definition matchesAlert :: "int \<Rightarrow> int \<Rightarrow> alert \<Rightarrow> alert \<Rightarrow> bool" where
  "matchesAlert now w subject a =
     (sourceType a = sourceType subject \<and>
      isActive a \<and>
      date_ge (timestamp a) (now - w * 60 * 1000) \<and>
      (map_of (metadata a) ''driverId'' = map_of (metadata subject) ''driverId'' \<or>
       map_of (metadata a) ''vehicleId'' = map_of (metadata subject) ''vehicleId''))"

definition recentAlerts :: "int \<Rightarrow> int \<Rightarrow> alert \<Rightarrow> alert list \<Rightarrow> alert list" where
  "recentAlerts now w subject allAlerts = filter (matchesAlert now w subject) allAlerts"

definition countEscalation :: "int \<Rightarrow> alert \<Rightarrow> rule \<Rightarrow> alert list \<Rightarrow> rule_action option" where
  "countEscalation now a r allAlerts =
     (case (escalate_if_count r, window_mins r) of
        (Some c, Some w) \<Rightarrow>
          if c \<noteq> 0 \<and> w \<noteq> 0 then
            (let recent = recentAlerts now w a allAlerts in
             if int (length recent) \<ge> c then
               Some (Escalate (escalate_to_severity r)
                 (render_nat (length recent) @ '' '' @ sourceType a @ '' alerts in '' @
                  render_int w @ '' minutes''))
             else None)
          else None
      | _ \<Rightarrow> None)"

text \<open>
  \<^verbatim>\<open>getAge()\<close> is the age in days as a quotient; \<^verbatim>\<open>alertAge >= d\<close> for an integer \<open>d\<close> is
  compared here on the exact quotient, that is \<open>now - timestamp \<ge> d * 86400000\<close>, and
  \<^verbatim>\<open>Math.floor(alertAge)\<close> is the integer quotient. With a timestamp that denotes no date the
  age is \<^verbatim>\<open>NaN\<close> and the comparison is false.
\<close>

definition ageEscalation :: "int \<Rightarrow> alert \<Rightarrow> rule \<Rightarrow> rule_action option" where
  "ageEscalation now a r =
     (case escalate_if_days r of
        Some d \<Rightarrow>
          if d \<noteq> 0 \<and> status a = OPEN then
            (if validDate (timestamp a) \<and> now - timestamp a \<ge> d * (1000 * 60 * 60 * 24) then
               Some (Escalate (escalate_to_severity r)
                 (''Alert aged '' @ render_int ((now - timestamp a) div (1000 * 60 * 60 * 24)) @
                  '' days''))
             else None)
          else None
      | None \<Rightarrow> None)"

definition checkEscalationRules ::
  "env \<Rightarrow> int \<Rightarrow> alert \<Rightarrow> rule \<Rightarrow> alert list \<Rightarrow> rule_action option" where
  "checkEscalationRules e now a r allAlerts =
     (if canEscalate e now a then
        (case countEscalation now a r allAlerts of
           Some act \<Rightarrow> Some act
         | None \<Rightarrow> ageEscalation now a r)
      else None)"

definition checkAutoCloseRules :: "alert \<Rightarrow> rule \<Rightarrow> rule_action option" where
  "checkAutoCloseRules a r =
     (case auto_close_if r of
        None \<Rightarrow> None
      | Some condition \<Rightarrow>
          if condition = [] then None
          else if map_of (metadata a) condition = Some (JBool True) \<or>
                  map_of (metadata a) condition = Some (JStr ''true'') \<or>
                  (condition = ''document_valid'' \<and>
                     map_of (metadata a) ''document_valid'' = Some (JBool True)) \<or>
                  (condition = ''document_renewed'' \<and>
                     map_of (metadata a) ''document_renewed'' = Some (JBool True)) \<or>
                  (condition = ''maintenance_completed'' \<and>
                     map_of (metadata a) ''maintenance_completed'' = Some (JBool True))
          then Some (Auto_close (''Auto-closed because '' @ condition @ '' condition met''))
          else None)"

definition evaluateAlert ::
  "env \<Rightarrow> int \<Rightarrow> rule_store \<Rightarrow> alert \<Rightarrow> alert list \<Rightarrow> rule_action option" where
  "evaluateAlert e now rules a allAlerts =
     (case map_of rules (sourceType a) of
        None \<Rightarrow> None
      | Some r \<Rightarrow>
          (case checkEscalationRules e now a r allAlerts of
             Some act \<Rightarrow> Some act
           | None \<Rightarrow> checkAutoCloseRules a r))"

section \<open>Storage abstraction (AlertStorageManager)\<close>

text \<open>
  The manager holds the Redis client's \<^verbatim>\<open>isConnected\<close> flag, the records under the Redis
  keys \<^verbatim>\<open>alert:<id>\<close>, and the fallback \<^verbatim>\<open>memoryStore\<close> map. Both stores are association
  lists keyed by the alert identifier; writing a key that exists replaces its record in
  place and a new key is appended, as a JavaScript \<^verbatim>\<open>Map\<close> does (the order of Redis
  \<^verbatim>\<open>KEYS\<close> is unspecified, the list fixes one). The record stored is \<^verbatim>\<open>alert.toJSON()\<close>,
  read back by \<^verbatim>\<open>new Alert(data)\<close>: the identity on \<^typ>\<open>alert\<close>, but for an empty
  \<^verbatim>\<open>resolution\<close> string, which is read back as \<^verbatim>\<open>null\<close>; no statement below reads the
  \<^verbatim>\<open>resolution\<close> of a stored record. The secondary indices by
  driver and vehicle are written by \<^verbatim>\<open>saveAlert\<close> and read by \<^verbatim>\<open>getAlertsByDriver\<close> only;
  they are left out. A Redis command that fails on a connected client is not modelled.
  In the memory store the saved record shares its \<^verbatim>\<open>history\<close> array with the alert object;
  every path below that pushes an event saves the alert right after, so a value copy
  shows the same states.
\<close>

record storage =
  isConnected :: bool
  redisStore :: "(string \<times> alert) list"
  memoryStore :: "(string \<times> alert) list"

definition saveAlert :: "alert \<Rightarrow> storage \<Rightarrow> storage" where
  "saveAlert a st =
     (if isConnected st
      then st\<lparr>redisStore := AList.update (alertId a) a (redisStore st)\<rparr>
      else st\<lparr>memoryStore := AList.update (alertId a) a (memoryStore st)\<rparr>)"

definition getAlert :: "storage \<Rightarrow> string \<Rightarrow> alert option" where
  "getAlert st aid =
     (if isConnected st then map_of (redisStore st) aid else map_of (memoryStore st) aid)"

definition getAllAlerts :: "storage \<Rightarrow> alert list" where
  "getAllAlerts st =
     (if isConnected st then map snd (redisStore st) else map snd (memoryStore st))"

definition deleteAlert :: "string \<Rightarrow> storage \<Rightarrow> storage" where
  "deleteAlert aid st =
     (if isConnected st
      then st\<lparr>redisStore := AList.delete aid (redisStore st)\<rparr>
      else st\<lparr>memoryStore := AList.delete aid (memoryStore st)\<rparr>)"


definition emptyStorage :: "bool \<Rightarrow> storage" where
  "emptyStorage b = \<lparr>isConnected = b, redisStore = [], memoryStore = []\<rparr>"

section \<open>Alert service (AlertService)\<close>

text \<open>
  The service owns the storage manager and the rule engine's rules. Every operation
  takes the reading of the clock as \<open>now\<close>; one call reads the clock once. The
  \<^verbatim>\<open>processingQueue\<close> set only guards against a second call for the same identifier
  while a first one is suspended: a call removes the identifier it added before it
  returns, so between calls the set is empty, and calls run one after the other here.
\<close>

record service =
  storageManager :: storage
  rules :: rule_store

definition executeAction :: "int \<Rightarrow> alert \<Rightarrow> rule_action \<Rightarrow> alert" where
  "executeAction now a act =
     (case act of
        Escalate sev reason \<Rightarrow> escalate now sev reason a
      | Auto_close reason \<Rightarrow> autoClose now reason a)"

definition processAlert :: "env \<Rightarrow> int \<Rightarrow> service \<Rightarrow> alert \<Rightarrow> service \<times> alert" where
  "processAlert e now svc a =
     (let allAlerts = getAllAlerts (storageManager svc) in
      case evaluateAlert e now (rules svc) a allAlerts of
        None \<Rightarrow> (svc, a)
      | Some act \<Rightarrow>
          (let a' = executeAction now a act in
           (svc\<lparr>storageManager := saveAlert a' (storageManager svc)\<rparr>, a')))"

definition createAlert ::
  "env \<Rightarrow> int \<Rightarrow> string \<Rightarrow> service \<Rightarrow> string \<Rightarrow> severity_level option \<Rightarrow> metadata option
     \<Rightarrow> service \<times> alert" where
  "createAlert e now uuid svc srcType sev md =
     (let a = newAlert uuid now srcType sev md in
      processAlert e now (svc\<lparr>storageManager := saveAlert a (storageManager svc)\<rparr>) a)"

text \<open>The bodies of the two sweeps' \<^verbatim>\<open>for\<close> loops, and the sweeps as folds over the
  snapshot each one reads first.\<close>

definition processStep :: "env \<Rightarrow> int \<Rightarrow> service \<Rightarrow> alert \<Rightarrow> service" where
  "processStep e now s a = fst (processAlert e now s a)"

definition processAllAlerts :: "env \<Rightarrow> int \<Rightarrow> service \<Rightarrow> service" where
  "processAllAlerts e now svc =
     (let alerts = getAllAlerts (storageManager svc);
          activeAlerts = filter isActive alerts
      in foldl (processStep e now) svc activeAlerts)"

definition expireStep :: "env \<Rightarrow> int \<Rightarrow> int \<Rightarrow> service \<Rightarrow> alert \<Rightarrow> service" where
  "expireStep e now expiryTime s a =
     (if isActive a \<and> date_lt (timestamp a) expiryTime
      then s\<lparr>storageManager := saveAlert (expire e now a) (storageManager s)\<rparr>
      else s)"

definition expireOldAlerts :: "env \<Rightarrow> int \<Rightarrow> service \<Rightarrow> service" where
  "expireOldAlerts e now svc =
     (let expiryTime = now - ALERT_EXPIRY_DAYS e * 24 * 60 * 60 * 1000;
          alerts = getAllAlerts (storageManager svc)
      in foldl (expireStep e now expiryTime) svc alerts)"

text \<open>The scheduled job: the re-evaluation sweep, then the expiry sweep.\<close>

definition backgroundJob :: "env \<Rightarrow> int \<Rightarrow> service \<Rightarrow> service" where
  "backgroundJob e now svc = expireOldAlerts e now (processAllAlerts e now svc)"

definition resolveAlert :: "int \<Rightarrow> service \<Rightarrow> string \<Rightarrow> string option \<Rightarrow> service \<times> alert option" where
  "resolveAlert now svc aid res =
     (case getAlert (storageManager svc) aid of
        None \<Rightarrow> (svc, None)
      | Some a \<Rightarrow>
          (let a' = resolve now res a in
           (svc\<lparr>storageManager := saveAlert a' (storageManager svc)\<rparr>, Some a')))"

text \<open>
  The route \<^verbatim>\<open>PATCH /alerts/:alertId/renew\<close>: it reads the alert, merges the request's
  metadata and \<^verbatim>\<open>document_valid: true\<close> over the alert's, saves it and calls
  \<^verbatim>\<open>processAlert\<close> on it.
\<close>

definition renewAlert ::
  "env \<Rightarrow> int \<Rightarrow> service \<Rightarrow> string \<Rightarrow> metadata \<Rightarrow> service \<times> alert option" where
  "renewAlert e now svc aid md =
     (case getAlert (storageManager svc) aid of
        None \<Rightarrow> (svc, None)
      | Some a \<Rightarrow>
          (let a1 = a\<lparr>metadata := (''document_valid'', JBool True) # md @ metadata a\<rparr>;
               r = processAlert e now (svc\<lparr>storageManager := saveAlert a1 (storageManager svc)\<rparr>) a1
           in (fst r, Some (snd r))))"

definition newService :: "bool \<Rightarrow> service" where
  "newService connected = \<lparr>storageManager = emptyStorage connected, rules = getDefaultRules\<rparr>"

section \<open>Sequences of operations\<close>

text \<open>
  The methods that change an alert after its construction are \<^verbatim>\<open>escalate\<close>,
  \<^verbatim>\<open>autoClose\<close>, \<^verbatim>\<open>resolve\<close> and \<^verbatim>\<open>expire\<close>; the renew route also assigns the
  \<^verbatim>\<open>metadata\<close> field. A history of an alert is a list of such calls, each with the clock
  reading at which it ran.
\<close>

datatype alert_op =
    OpEscalate severity_level string
  | OpAutoClose string
  | OpResolve "string option"
  | OpExpire
  | OpSetMetadata metadata

fun applyOp :: "env \<Rightarrow> alert \<Rightarrow> int \<times> alert_op \<Rightarrow> alert" where
  "applyOp e a (now, OpEscalate sev reason) = escalate now sev reason a"
| "applyOp e a (now, OpAutoClose reason) = autoClose now reason a"
| "applyOp e a (now, OpResolve res) = resolve now res a"
| "applyOp e a (now, OpExpire) = expire e now a"
| "applyOp e a (now, OpSetMetadata md) = a\<lparr>metadata := md\<rparr>"

definition applyOps :: "env \<Rightarrow> alert \<Rightarrow> (int \<times> alert_op) list \<Rightarrow> alert" where
  "applyOps e a ops = foldl (applyOp e) a ops"

fun isResolveOp :: "int \<times> alert_op \<Rightarrow> bool" where
  "isResolveOp (now, OpResolve res) = True"
| "isResolveOp (now, other) = False"

fun isExpireOp :: "int \<times> alert_op \<Rightarrow> bool" where
  "isExpireOp (now, OpExpire) = True"
| "isExpireOp (now, other) = False"





section \<open>Stores as the service keeps them\<close>

text \<open>
  The store that the connection flag selects. Both backends are keyed by the identifier of
  the alert they hold (\<^verbatim>\<open>alert:<alertId>\<close>, \<^verbatim>\<open>memoryStore.set(alert.alertId, ...)\<close>), and a
  key occurs once: a store is well formed when that is so.
\<close>

definition currentStore :: "storage \<Rightarrow> (string \<times> alert) list" where
  "currentStore st = (if isConnected st then redisStore st else memoryStore st)"

definition wellFormed :: "storage \<Rightarrow> bool" where
  "wellFormed st =
     (distinct (map fst (currentStore st)) \<and>
      list_all (\<lambda>kv. fst kv = alertId (snd kv)) (currentStore st))"


text \<open>
  Notions for reasoning about a sweep. A later version of an alert has the same source
  type, timestamp and metadata, and is active only if the earlier one was; a store evolves
  into another when the keys are the same and every record is a later version. An alert is
  settled at a clock reading when it is not active, or was escalated at that reading, or
  evaluation against the snapshot yields nothing for it.
\<close>

definition laterVersion :: "alert \<Rightarrow> alert \<Rightarrow> bool" where
  "laterVersion a a' =
     (sourceType a' = sourceType a \<and> timestamp a' = timestamp a \<and> metadata a' = metadata a \<and>
      (isActive a \<or> \<not> isActive a'))"

definition evolves :: "(string \<times> alert) list \<Rightarrow> (string \<times> alert) list \<Rightarrow> bool" where
  "evolves al al' =
     list_all2 (\<lambda>kv kv'. fst kv' = fst kv \<and> laterVersion (snd kv) (snd kv')) al al'"

definition settled :: "env \<Rightarrow> int \<Rightarrow> rule_store \<Rightarrow> alert list \<Rightarrow> alert \<Rightarrow> bool" where
  "settled e now rs allAlerts a =
     (\<not> isActive a \<or> lastEscalatedAt a = Some now \<or> evaluateAlert e now rs a allAlerts = None)"

section \<open>Concrete runs\<close>

text \<open>
  The runs below follow the repository's test script: alerts are created through
  \<^const>\<open>createAlert\<close> on a service with the default rules and the in-memory store. Clock
  readings are a second apart.
\<close>

definition md_drv001 :: metadata where
  "md_drv001 = [(''driverId'', JStr ''DRV001''), (''vehicleId'', JStr ''MH12AB1234'')]"

definition overspeed_rule :: rule where
  "overspeed_rule =
     \<lparr>escalate_if_count = Some 3, window_mins = Some 60, escalate_if_days = None,
      escalate_to_severity = CRITICAL, auto_close_if = Some ''speed_normalized''\<rparr>"

definition overspeed_1 :: "service \<times> alert" where
  "overspeed_1 = createAlert default_env 1000 ''a1'' (newService False) ''overspeed''
      (Some MEDIUM) (Some md_drv001)"

definition overspeed_2 :: "service \<times> alert" where
  "overspeed_2 = createAlert default_env 2000 ''a2'' (fst overspeed_1) ''overspeed''
      (Some MEDIUM) (Some md_drv001)"

definition overspeed_3 :: "service \<times> alert" where
  "overspeed_3 = createAlert default_env 3000 ''a3'' (fst overspeed_2) ''overspeed''
      (Some MEDIUM) (Some md_drv001)"

definition overspeed_4 :: "service \<times> alert" where
  "overspeed_4 = createAlert default_env 4000 ''a4'' (fst overspeed_3) ''overspeed''
      (Some MEDIUM) (Some md_drv001)"

text \<open>The third overspeed alert as constructed, and the snapshot its evaluation reads.\<close>

definition third_alert :: alert where
  "third_alert = newAlert ''a3'' 3000 ''overspeed'' (Some MEDIUM) (Some md_drv001)"

definition third_snapshot :: "alert list" where
  "third_snapshot = getAllAlerts (saveAlert third_alert (storageManager (fst overspeed_2)))"

text \<open>A fatigue alert whose auto-close flag is already set when it is created.\<close>

definition fatigue_rule :: rule where
  "fatigue_rule =
     \<lparr>escalate_if_count = Some 1, window_mins = Some 30, escalate_if_days = None,
      escalate_to_severity = CRITICAL, auto_close_if = Some ''driver_rested''\<rparr>"

definition fatigue_rested :: alert where
  "fatigue_rested = newAlert ''d1'' 1000 ''driver_fatigue'' (Some LOW)
      (Some [(''driverId'', JStr ''DRV002''), (''driver_rested'', JBool True)])"

definition fatigue_service :: service where
  "fatigue_service =
     (newService False)\<lparr>storageManager := saveAlert fatigue_rested (emptyStorage False)\<rparr>"

text \<open>Two feedback alerts from different customers, neither naming a driver or a vehicle.\<close>

definition feedback_1 :: alert where
  "feedback_1 = newAlert ''f1'' 1000 ''feedback_negative'' (Some LOW)
      (Some [(''rating'', JNum 2), (''customerId'', JStr ''CUST001'')])"

definition feedback_2 :: alert where
  "feedback_2 = newAlert ''f2'' 2000 ''feedback_negative'' (Some LOW)
      (Some [(''rating'', JNum 1), (''customerId'', JStr ''CUST002'')])"

text \<open>A compliance alert, resolved by hand, then renewed through the renew route, and
  resolved a second time.\<close>

definition compliance_rule :: rule where
  "compliance_rule =
     \<lparr>escalate_if_count = None, window_mins = None, escalate_if_days = Some 7,
      escalate_to_severity = HIGH, auto_close_if = Some ''document_valid''\<rparr>"

definition compliance_created :: "service \<times> alert" where
  "compliance_created = createAlert default_env 1000 ''c1'' (newService False) ''compliance''
      (Some MEDIUM) (Some [(''driverId'', JStr ''DRV003''), (''documentType'', JStr ''license'')])"

definition compliance_resolved :: "service \<times> alert option" where
  "compliance_resolved =
     resolveAlert 2000 (fst compliance_created) ''c1'' (Some ''Driver counseled'')"

definition compliance_renewed :: "service \<times> alert option" where
  "compliance_renewed = renewAlert default_env 3000 (fst compliance_resolved) ''c1'' []"

definition compliance_resolved_again :: "service \<times> alert option" where
  "compliance_resolved_again = resolveAlert 5000 (fst compliance_resolved) ''c1'' None"

text \<open>Compliance alerts whose metadata carries a boolean flag: under the key the rule
  names, and under other names.\<close>

definition compliance_valid :: alert where
  "compliance_valid = newAlert ''c2'' 1000 ''compliance'' (Some MEDIUM)
      (Some [(''driverId'', JStr ''DRV003''), (''document_valid'', JBool True)])"

definition compliance_other_keys :: alert where
  "compliance_other_keys = newAlert ''c3'' 1000 ''compliance'' (Some MEDIUM)
      (Some [(''driverId'', JStr ''DRV003''), (''documentValid'', JBool True),
             (''document_renewed'', JBool True)])"






text \<open>The default rules with the fatigue rule's window set to 200000000000 minutes.\<close>

definition huge_window_service :: service where
  "huge_window_service =
     (newService False)\<lparr>rules :=
        updateRules [(''driver_fatigue'', fatigue_rule\<lparr>window_mins := Some 200000000000\<rparr>)]
          getDefaultRules\<rparr>"


section \<open>Facts about the entity and the rule engine\<close>

lemma status_escalate [simp]: "status (escalate now sev reason a) = ESCALATED"
  by (simp add: escalate_def addHistoryEvent_def)

lemma severity_escalate [simp]: "severity (escalate now sev reason a) = sev"
  by (simp add: escalate_def addHistoryEvent_def)

lemma status_autoClose [simp]: "status (autoClose now reason a) = AUTO_CLOSED"
  by (simp add: autoClose_def addHistoryEvent_def)

lemma history_escalate:
  "history (escalate now sev reason a) =
     history a @ [\<lparr>action = EV_ESCALATED, ev_timestamp = now, details = reason,
        previousStatus = Some (status a), previousSeverity = Some (severity a)\<rparr>]"
  by (simp add: escalate_def addHistoryEvent_def)

lemma history_autoClose:
  "history (autoClose now reason a) =
     history a @ [\<lparr>action = EV_AUTO_CLOSED, ev_timestamp = now, details = reason,
        previousStatus = Some (status a), previousSeverity = None\<rparr>]"
  by (simp add: autoClose_def addHistoryEvent_def)

lemma newAlert_fields [simp]:
  "status (newAlert uuid now srcType sev md) = OPEN"
  "timestamp (newAlert uuid now srcType sev md) = now"
  "sourceType (newAlert uuid now srcType sev md) = srcType"
  "lastEscalatedAt (newAlert uuid now srcType sev md) = None"
  "alertId (newAlert uuid now srcType sev md) = uuid"
  by (simp_all add: newAlert_def addHistoryEvent_def)

text \<open>Every action the escalation check returns is an escalation to the rule's severity,
  and every action the auto-close check returns is an auto-close.\<close>

lemma countEscalation_Some:
  "countEscalation now a r allAlerts = Some act \<Longrightarrow>
     \<exists>reason. act = Escalate (escalate_to_severity r) reason"
  by (auto simp: countEscalation_def Let_def split: option.splits if_splits)

lemma ageEscalation_Some:
  "ageEscalation now a r = Some act \<Longrightarrow>
     \<exists>reason. act = Escalate (escalate_to_severity r) reason"
  by (auto simp: ageEscalation_def split: option.splits if_splits)

lemma checkEscalationRules_Some:
  "checkEscalationRules e now a r allAlerts = Some act \<Longrightarrow>
     \<exists>reason. act = Escalate (escalate_to_severity r) reason"
  by (auto simp: checkEscalationRules_def split: option.splits if_splits
      dest: countEscalation_Some ageEscalation_Some)

lemma checkAutoCloseRules_Some:
  "checkAutoCloseRules a r = Some act \<Longrightarrow> \<exists>reason. act = Auto_close reason"
  by (auto simp: checkAutoCloseRules_def split: option.splits if_splits)

lemma countEscalation_fires:
  assumes "escalate_if_count r = Some c" and "c \<noteq> 0"
    and "window_mins r = Some w" and "w \<noteq> 0"
    and "c \<le> int (length (recentAlerts now w a allAlerts))"
  shows "\<exists>reason. countEscalation now a r allAlerts =
           Some (Escalate (escalate_to_severity r) reason)"
  using assms by (simp add: countEscalation_def Let_def)

lemma length_filter_mono:
  "(\<And>x. x \<in> set xs \<Longrightarrow> P x \<Longrightarrow> Q x) \<Longrightarrow> length (filter P xs) \<le> length (filter Q xs)"
  by (induction xs) auto

lemma update_mem: "(k, v) \<in> set (AList.update k v al)"
  by (induction al) auto

lemma update_other_mem:
  "k' \<noteq> k \<Longrightarrow> (k, v) \<in> set al \<Longrightarrow> (k, v) \<in> set (AList.update k' v' al)"
  by (induction al) auto

lemma saved_in_getAllAlerts: "a \<in> set (getAllAlerts (saveAlert a st))"
proof -
  have "(alertId a, a) \<in> set (AList.update (alertId a) a al)" for al
    by (rule update_mem)
  then have "a \<in> snd ` set (AList.update (alertId a) a al)" for al
    by force
  then show ?thesis
    by (simp add: getAllAlerts_def saveAlert_def)
qed

section \<open>Count-in-window escalation\<close>

text \<open>
  Claim C1. Let the rule of the alert's source type define \<^verbatim>\<open>escalate_if_count\<close> = \<open>c\<close> and
  \<^verbatim>\<open>window_mins\<close> = \<open>w\<close>; the guard \<^verbatim>\<open>rule.escalate_if_count && rule.window_mins\<close> reads a
  field as defined when it is present and not zero. The window is the one the code forms:
  its end \<open>now\<close> is a clock reading and its start, \<open>w\<close> minutes earlier, is a date
  (\<^verbatim>\<open>new Date(Date.now() - window_mins * 60 * 1000)\<close> is not an Invalid Date). If the
  snapshot holds at least \<open>c\<close> alerts of the same source type that are active, whose
  timestamp lies in that window, and that agree with the alert on \<^verbatim>\<open>driverId\<close> or on
  \<^verbatim>\<open>vehicleId\<close>, and the alert's cooldown gate passes, then evaluation yields an escalate
  action to the rule's \<^verbatim>\<open>escalate_to_severity\<close>, and executing it leaves the alert
  ESCALATED with that severity.
\<close>

theorem count_in_window_escalates:
  assumes "map_of rs (sourceType a) = Some r"
    and "escalate_if_count r = Some c" and "c \<noteq> 0"
    and "window_mins r = Some w" and "w \<noteq> 0"
    and "validDate now" and "validDate (now - w * 60 * 1000)"
    and "canEscalate e now a"
    and "c \<le> int (length (filter (\<lambda>b.
            sourceType b = sourceType a \<and> isActive b \<and>
            now - w * 60 * 1000 \<le> timestamp b \<and> timestamp b \<le> now \<and>
            (map_of (metadata b) ''driverId'' = map_of (metadata a) ''driverId'' \<or>
             map_of (metadata b) ''vehicleId'' = map_of (metadata a) ''vehicleId'')) allAlerts))"
  shows "\<exists>reason.
      evaluateAlert e now rs a allAlerts = Some (Escalate (escalate_to_severity r) reason) \<and>
      status (executeAction now a (Escalate (escalate_to_severity r) reason)) = ESCALATED \<and>
      severity (executeAction now a (Escalate (escalate_to_severity r) reason)) =
        escalate_to_severity r"
proof -
  have "length (filter (\<lambda>b.
            sourceType b = sourceType a \<and> isActive b \<and>
            now - w * 60 * 1000 \<le> timestamp b \<and> timestamp b \<le> now \<and>
            (map_of (metadata b) ''driverId'' = map_of (metadata a) ''driverId'' \<or>
             map_of (metadata b) ''vehicleId'' = map_of (metadata a) ''vehicleId'')) allAlerts)
        \<le> length (recentAlerts now w a allAlerts)"
    unfolding recentAlerts_def
    by (rule length_filter_mono)
      (use assms(6,7) in \<open>auto simp: matchesAlert_def date_ge_def validDate_def\<close>)
  with assms(9) have "c \<le> int (length (recentAlerts now w a allAlerts))" by linarith
  from countEscalation_fires[OF assms(2,3,4,5) this]
  obtain reason where
    "countEscalation now a r allAlerts = Some (Escalate (escalate_to_severity r) reason)" ..
  with assms(1,8) have
    "evaluateAlert e now rs a allAlerts = Some (Escalate (escalate_to_severity r) reason)"
    by (simp add: evaluateAlert_def checkEscalationRules_def)
  then show ?thesis by (auto simp: executeAction_def)
qed

text \<open>Three overspeed alerts of driver DRV001 within the hour, under the default rule
  (count 3, window 60): the third one is escalated to CRITICAL when it is created.\<close>

theorem count_in_window_escalates_witness:
  "map_of getDefaultRules (sourceType third_alert) = Some overspeed_rule \<and>
   validDate 3000 \<and> validDate (3000 - 60 * 60 * 1000) \<and>
   canEscalate default_env 3000 third_alert \<and>
   length third_snapshot = 3 \<and>
   (\<exists>reason. evaluateAlert default_env 3000 getDefaultRules third_alert third_snapshot =
       Some (Escalate CRITICAL reason)) \<and>
   status (snd overspeed_3) = ESCALATED \<and> severity (snd overspeed_3) = CRITICAL"
proof -
  have h7: "3 \<le> int (length (filter (\<lambda>b.
            sourceType b = sourceType third_alert \<and> isActive b \<and>
            3000 - 60 * 60 * 1000 \<le> timestamp b \<and> timestamp b \<le> 3000 \<and>
            (map_of (metadata b) ''driverId'' = map_of (metadata third_alert) ''driverId'' \<or>
             map_of (metadata b) ''vehicleId'' = map_of (metadata third_alert) ''vehicleId''))
          third_snapshot))"
    by code_simp
  have h1: "map_of getDefaultRules (sourceType third_alert) = Some overspeed_rule" by code_simp
  have h2: "escalate_if_count overspeed_rule = Some 3" by code_simp
  have h4: "window_mins overspeed_rule = Some 60" by code_simp
  have v1: "validDate 3000" by (simp add: validDate_def)
  have v2: "validDate (3000 - 60 * 60 * 1000)" by (simp add: validDate_def)
  have h6: "canEscalate default_env 3000 third_alert" by code_simp
  have sev: "escalate_to_severity overspeed_rule = CRITICAL" by code_simp
  have len: "length third_snapshot = 3" by code_simp
  have st: "status (snd overspeed_3) = ESCALATED \<and> severity (snd overspeed_3) = CRITICAL"
    by code_simp
  from count_in_window_escalates[OF h1 h2 _ h4 _ v1 v2 h6 h7]
  have "\<exists>reason. evaluateAlert default_env 3000 getDefaultRules third_alert third_snapshot =
       Some (Escalate CRITICAL reason)"
    by (auto simp: sev)
  with h1 v1 v2 h6 len st show ?thesis by blast
qed

text \<open>
  When the start of the window is no date, the filter matches nothing: with
  \<^verbatim>\<open>window_mins\<close> = 200000000000 a fatigue alert created at 1790000000000 does not count
  itself and stays OPEN.
\<close>

lemma recentAlerts_invalid_window:
  "\<not> validDate (now - w * 60 * 1000) \<Longrightarrow> recentAlerts now w a allAlerts = []"
  by (simp add: recentAlerts_def matchesAlert_def date_ge_def)

lemma huge_window_leaves_alert_open:
  "validDate 1790000000000 \<and> \<not> validDate (1790000000000 - 200000000000 * 60 * 1000) \<and>
   status (snd (createAlert default_env 1790000000000 ''h1'' huge_window_service
     ''driver_fatigue'' (Some LOW) None)) = OPEN"
  by code_simp

section \<open>Resolved alerts and on-demand processing\<close>

text \<open>
  Claim C2. \<^verbatim>\<open>resolve\<close> sets RESOLVED whatever the status was, and the two sweeps skip
  alerts that are not active. \<^verbatim>\<open>processAlert\<close> itself has no such test, and the renew
  route calls it on whatever alert the identifier names: the compliance alert that was
  created at 1000 and resolved by hand at 2000 is turned AUTO_CLOSED by the renewal at
  3000, with a third history event whose previous status is RESOLVED.
\<close>

theorem resolved_alert_auto_closed_by_renew:
  "map_option status (snd compliance_resolved) = Some RESOLVED \<and>
   map_option status (snd compliance_renewed) = Some AUTO_CLOSED \<and>
   map status (getAllAlerts (storageManager (fst compliance_renewed))) = [AUTO_CLOSED] \<and>
   map_option (map action \<circ> history) (snd compliance_renewed) =
     Some [EV_CREATED, EV_RESOLVED, EV_AUTO_CLOSED] \<and>
   map_option (previousStatus \<circ> last \<circ> history) (snd compliance_renewed) = Some (Some RESOLVED)"
  by code_simp

section \<open>Sweeps over a well-formed store\<close>

lemma getAllAlerts_currentStore: "getAllAlerts st = map snd (currentStore st)"
  by (simp add: getAllAlerts_def currentStore_def)

lemma currentStore_saveAlert:
  "currentStore (saveAlert a st) = AList.update (alertId a) a (currentStore st)"
  by (simp add: currentStore_def saveAlert_def)

lemma isConnected_saveAlert [simp]: "isConnected (saveAlert a st) = isConnected st"
  by (simp add: saveAlert_def)

lemma list_all_update:
  "list_all P al \<Longrightarrow> P (k, v) \<Longrightarrow> list_all P (AList.update k v al)"
  by (induction al) auto

lemma wellFormed_saveAlert: "wellFormed st \<Longrightarrow> wellFormed (saveAlert a st)"
  by (simp add: wellFormed_def currentStore_saveAlert distinct_update list_all_update)

lemma alertId_executeAction [simp]: "alertId (executeAction now a act) = alertId a"
  by (cases act) (simp_all add: executeAction_def escalate_def autoClose_def addHistoryEvent_def)

lemma alertId_expire [simp]: "alertId (expire e now a) = alertId a"
  by (simp add: expire_def addHistoryEvent_def)

lemma processStep_cases:
  "processStep e now svc a = svc \<or>
   (\<exists>act. processStep e now svc a =
      svc\<lparr>storageManager := saveAlert (executeAction now a act) (storageManager svc)\<rparr>)"
  by (auto simp: processStep_def processAlert_def Let_def split: option.splits)

lemma wellFormed_processStep:
  "wellFormed (storageManager svc) \<Longrightarrow> wellFormed (storageManager (processStep e now svc a))"
  using processStep_cases[of e now svc a] by (auto simp: wellFormed_saveAlert)

lemma kept_processStep:
  assumes "(k, b) \<in> set (currentStore (storageManager svc))" and "alertId a \<noteq> k"
  shows "(k, b) \<in> set (currentStore (storageManager (processStep e now svc a)))"
  using processStep_cases[of e now svc a] assms
  by (auto simp: currentStore_saveAlert intro: update_other_mem)

lemma wellFormed_foldl_processStep:
  "wellFormed (storageManager svc) \<Longrightarrow>
   wellFormed (storageManager (foldl (processStep e now) svc as))"
  by (induction as arbitrary: svc) (simp_all add: wellFormed_processStep)

lemma kept_foldl_processStep:
  "(k, b) \<in> set (currentStore (storageManager svc)) \<Longrightarrow> list_all (\<lambda>a. alertId a \<noteq> k) as \<Longrightarrow>
   (k, b) \<in> set (currentStore (storageManager (foldl (processStep e now) svc as)))"
  by (induction as arbitrary: svc) (simp_all add: kept_processStep)

lemma wellFormed_in_store:
  assumes "wellFormed st" and "b \<in> set (getAllAlerts st)"
  shows "(alertId b, b) \<in> set (currentStore st)"
  using assms by (auto simp: wellFormed_def getAllAlerts_currentStore list_all_iff)

lemma wellFormed_other_ids:
  assumes "wellFormed st" and "b \<in> set (getAllAlerts st)" and "\<not> isActive b"
  shows "list_all (\<lambda>a. alertId a \<noteq> alertId b) (filter isActive (getAllAlerts st))"
proof -
  have "alertId a \<noteq> alertId b" if "a \<in> set (getAllAlerts st)" and "isActive a" for a
  proof
    assume eq: "alertId a = alertId b"
    have "(alertId a, a) \<in> set (currentStore st)" "(alertId b, b) \<in> set (currentStore st)"
      using assms(1,2) that(1) by (simp_all add: wellFormed_in_store)
    with eq assms(1) have "a = b"
      by (metis wellFormed_def eq_key_imp_eq_value)
    with that(2) assms(3) show False by simp
  qed
  then show ?thesis by (simp add: list_all_iff)
qed

lemma sweep_keeps_inactive:
  assumes "wellFormed (storageManager svc)" and "b \<in> set (getAllAlerts (storageManager svc))"
    and "\<not> isActive b"
  shows "b \<in> set (getAllAlerts (storageManager (processAllAlerts e now svc)))"
proof -
  have "(alertId b, b) \<in> set (currentStore (storageManager (processAllAlerts e now svc)))"
    unfolding processAllAlerts_def Let_def
    by (rule kept_foldl_processStep) (use assms in \<open>simp_all add: wellFormed_in_store wellFormed_other_ids\<close>)
  then show ?thesis by (force simp: getAllAlerts_currentStore)
qed


lemma wellFormed_expireStep:
  "wellFormed (storageManager svc) \<Longrightarrow> wellFormed (storageManager (expireStep e now t svc a))"
  by (simp add: expireStep_def wellFormed_saveAlert)

lemma wellFormed_foldl_expireStep:
  "wellFormed (storageManager svc) \<Longrightarrow>
   wellFormed (storageManager (foldl (expireStep e now t) svc as))"
  by (induction as arbitrary: svc) (simp_all add: wellFormed_expireStep)

lemma kept_expireStep:
  assumes "(k, b) \<in> set (currentStore (storageManager svc))"
    and "\<not> isActive a \<or> alertId a \<noteq> k"
  shows "(k, b) \<in> set (currentStore (storageManager (expireStep e now t svc a)))"
  using assms by (auto simp: expireStep_def currentStore_saveAlert intro: update_other_mem)

lemma kept_foldl_expireStep:
  "(k, b) \<in> set (currentStore (storageManager svc)) \<Longrightarrow>
   list_all (\<lambda>a. alertId a \<noteq> k) (filter isActive as) \<Longrightarrow>
   (k, b) \<in> set (currentStore (storageManager (foldl (expireStep e now t) svc as)))"
proof (induction as arbitrary: svc)
  case Nil
  then show ?case by simp
next
  case (Cons a as)
  have rest: "list_all (\<lambda>a. alertId a \<noteq> k) (filter isActive as)"
    using Cons.prems(2) by (simp split: if_splits)
  have "\<not> isActive a \<or> alertId a \<noteq> k"
    using Cons.prems(2) by (simp split: if_splits)
  with Cons.prems(1)
  have "(k, b) \<in> set (currentStore (storageManager (expireStep e now t svc a)))"
    by (rule kept_expireStep)
  from Cons.IH[OF this rest] show ?case by simp
qed

lemma wellFormed_processAllAlerts:
  "wellFormed (storageManager svc) \<Longrightarrow> wellFormed (storageManager (processAllAlerts e now svc))"
  by (simp add: processAllAlerts_def Let_def wellFormed_foldl_processStep)

lemma wellFormed_expireOldAlerts:
  "wellFormed (storageManager svc) \<Longrightarrow> wellFormed (storageManager (expireOldAlerts e now svc))"
  by (simp add: expireOldAlerts_def Let_def wellFormed_foldl_expireStep)

lemma expiry_keeps_inactive:
  assumes "wellFormed (storageManager svc)" and "b \<in> set (getAllAlerts (storageManager svc))"
    and "\<not> isActive b"
  shows "b \<in> set (getAllAlerts (storageManager (expireOldAlerts e now svc)))"
proof -
  have "(alertId b, b) \<in> set (currentStore (storageManager (expireOldAlerts e now svc)))"
    unfolding expireOldAlerts_def Let_def
    by (rule kept_foldl_expireStep) (use assms in \<open>simp_all add: wellFormed_in_store wellFormed_other_ids\<close>)
  then show ?thesis by (force simp: getAllAlerts_currentStore)
qed

section \<open>What a sweep leaves behind\<close>

lemma laterVersion_refl [simp]: "laterVersion a a"
  by (simp add: laterVersion_def)


lemma evolves_refl [simp]: "evolves al al"
  by (simp add: evolves_def list_all2_same)










lemma processStep_unfold:
  "processStep e now s a =
     (case evaluateAlert e now (rules s) a (getAllAlerts (storageManager s)) of
        None \<Rightarrow> s
      | Some act \<Rightarrow>
          s\<lparr>storageManager := saveAlert (executeAction now a act) (storageManager s)\<rparr>)"
  by (simp add: processStep_def processAlert_def Let_def split: option.splits)

lemma rules_processStep [simp]: "rules (processStep e now s a) = rules s"
  by (simp add: processStep_unfold split: option.splits)

lemma rules_expireStep [simp]: "rules (expireStep e now t s a) = rules s"
  by (simp add: expireStep_def)






lemma settled_expire: "settled e' now rs allAlerts (expire e now a)"
  by (simp add: settled_def expire_def addHistoryEvent_def isActive_def)



















section \<open>The scheduled job run twice\<close>





section \<open>Reading back what was saved\<close>








section \<open>The cooldown gate\<close>

text \<open>
  Claim C5, as amended. An alert whose own last escalation lies inside the cooldown window
  gets no escalation action from evaluation, by count or by age, whatever the snapshot
  holds: the escalation check returns nothing and evaluation goes on to the auto-close
  check. The gate reads only the alert's own \<^verbatim>\<open>lastEscalatedAt\<close>; a newly created alert
  has none, so its gate passes at any time.
\<close>

theorem cooldown_gate_blocks_escalation:
  assumes "lastEscalatedAt a = Some t"
    and "now - t \<le> ESCALATION_COOLDOWN_MINUTES e * 60 * 1000"
  shows "checkEscalationRules e now a r allAlerts = None \<and>
         \<not> is_escalate (evaluateAlert e now rs a allAlerts) \<and>
         evaluateAlert e now rs a allAlerts =
           (case map_of rs (sourceType a) of
              None \<Rightarrow> None
            | Some r' \<Rightarrow> checkAutoCloseRules a r') \<and>
         canEscalate e now' (newAlert uuid now' srcType sev md)"
proof -
  have g: "\<not> canEscalate e now a" using assms by (simp add: canEscalate_def)
  then have n: "checkEscalationRules e now a r' allAlerts = None" for r'
    by (simp add: checkEscalationRules_def)
  have ev: "evaluateAlert e now rs a allAlerts =
           (case map_of rs (sourceType a) of
              None \<Rightarrow> None
            | Some r' \<Rightarrow> checkAutoCloseRules a r')"
    by (simp add: evaluateAlert_def n split: option.splits)
  have "\<not> is_escalate (evaluateAlert e now rs a allAlerts)"
    unfolding ev by (auto simp: is_escalate_def split: option.splits rule_action.splits
        dest: checkAutoCloseRules_Some)
  with n ev show ?thesis by (simp add: canEscalate_def)
qed

text \<open>The third overspeed alert, escalated at 3000, evaluated again at 4000 against the
  four alerts then stored: the count holds (four alerts, threshold three) and nothing is
  emitted.\<close>

theorem cooldown_gate_blocks_escalation_witness:
  "lastEscalatedAt (snd overspeed_3) = Some 3000 \<and>
   4000 - 3000 \<le> ESCALATION_COOLDOWN_MINUTES default_env * 60 * 1000 \<and>
   length (recentAlerts 4000 60 (snd overspeed_3)
     (getAllAlerts (storageManager (fst overspeed_4)))) = 4 \<and>
   evaluateAlert default_env 4000 getDefaultRules (snd overspeed_3)
     (getAllAlerts (storageManager (fst overspeed_4))) = None"
proof -
  have h1: "lastEscalatedAt (snd overspeed_3) = Some 3000" by code_simp
  have h2: "4000 - 3000 \<le> ESCALATION_COOLDOWN_MINUTES default_env * 60 * 1000" by code_simp
  have len: "length (recentAlerts 4000 60 (snd overspeed_3)
     (getAllAlerts (storageManager (fst overspeed_4)))) = 4" by code_simp
  have r: "map_of getDefaultRules (sourceType (snd overspeed_3)) = Some overspeed_rule"
    by code_simp
  have c: "checkAutoCloseRules (snd overspeed_3) overspeed_rule = None" by code_simp
  from cooldown_gate_blocks_escalation[OF h1 h2, of overspeed_rule
      "getAllAlerts (storageManager (fst overspeed_4))" getDefaultRules]
  have "evaluateAlert default_env 4000 getDefaultRules (snd overspeed_3)
     (getAllAlerts (storageManager (fst overspeed_4))) = None"
    by (simp add: r c)
  with h1 h2 len show ?thesis by blast
qed

text \<open>The fourth overspeed alert of the same driver arrives a second after the third was
  escalated, well inside the 60-minute cooldown, and is itself escalated to CRITICAL.\<close>

theorem fourth_alert_escalates_counterexample:
  "lastEscalatedAt (snd overspeed_3) = Some 3000 \<and>
   4000 - 3000 \<le> ESCALATION_COOLDOWN_MINUTES default_env * 60 * 1000 \<and>
   status (snd overspeed_4) = ESCALATED \<and>
   severity (snd overspeed_4) = CRITICAL \<and>
   map status (getAllAlerts (storageManager (fst overspeed_4))) =
     [OPEN, OPEN, ESCALATED, ESCALATED]"
  by code_simp

section \<open>Order of evaluation\<close>

text \<open>
  Claim C6. One pass of \<^verbatim>\<open>processAlert\<close> over any alert and any store: without a rule for
  the source type nothing happens. With a rule, when the escalation check yields an
  action, that action is the result of evaluation and the alert is escalated, whatever the
  auto-close check would say; only when the escalation check yields nothing is the
  auto-close check consulted, and then the alert is auto-closed or left as it was. So a
  pass applies at most one action and adds at most one history event.
\<close>

theorem evaluation_first_match_wins:
  "(case map_of (rules svc) (sourceType a) of
      None \<Rightarrow>
        evaluateAlert e now (rules svc) a (getAllAlerts (storageManager svc)) = None \<and>
        processAlert e now svc a = (svc, a)
    | Some r \<Rightarrow>
        (case checkEscalationRules e now a r (getAllAlerts (storageManager svc)) of
           Some act \<Rightarrow>
             evaluateAlert e now (rules svc) a (getAllAlerts (storageManager svc)) = Some act \<and>
             (\<exists>reason. act = Escalate (escalate_to_severity r) reason \<and>
                snd (processAlert e now svc a) = escalate now (escalate_to_severity r) reason a)
         | None \<Rightarrow>
             evaluateAlert e now (rules svc) a (getAllAlerts (storageManager svc)) =
               checkAutoCloseRules a r \<and>
             (case checkAutoCloseRules a r of
                Some act \<Rightarrow> \<exists>reason. act = Auto_close reason \<and>
                   snd (processAlert e now svc a) = autoClose now reason a
              | None \<Rightarrow> processAlert e now svc a = (svc, a)))) \<and>
   length (history (snd (processAlert e now svc a))) \<le> Suc (length (history a))"
proof (cases "map_of (rules svc) (sourceType a)")
  case None
  then show ?thesis
    by (simp add: evaluateAlert_def processAlert_def)
next
  case r: (Some r)
  show ?thesis
  proof (cases "checkEscalationRules e now a r (getAllAlerts (storageManager svc))")
    case None
    show ?thesis
    proof (cases "checkAutoCloseRules a r")
      case n: None
      with None r show ?thesis
        by (simp add: evaluateAlert_def processAlert_def)
    next
      case (Some act)
      then obtain reason where "act = Auto_close reason"
        using checkAutoCloseRules_Some by blast
      with None Some r show ?thesis
        by (simp add: evaluateAlert_def processAlert_def Let_def executeAction_def
            history_autoClose)
    qed
  next
    case (Some act)
    then obtain reason where "act = Escalate (escalate_to_severity r) reason"
      using checkEscalationRules_Some by blast
    with Some r show ?thesis
      by (simp add: evaluateAlert_def processAlert_def Let_def executeAction_def
          history_escalate)
  qed
qed

text \<open>The fatigue alert whose \<^verbatim>\<open>driver_rested\<close> flag is set: both checks match, and the
  pass escalates it and records one event.\<close>

theorem evaluation_first_match_wins_witness:
  "map_of (rules fatigue_service) (sourceType fatigue_rested) = Some fatigue_rule \<and>
   is_escalate (checkEscalationRules default_env 1000 fatigue_rested fatigue_rule
      (getAllAlerts (storageManager fatigue_service))) \<and>
   is_auto_close (checkAutoCloseRules fatigue_rested fatigue_rule) \<and>
   is_escalate (evaluateAlert default_env 1000 (rules fatigue_service) fatigue_rested
      (getAllAlerts (storageManager fatigue_service))) \<and>
   status (snd (processAlert default_env 1000 fatigue_service fatigue_rested)) = ESCALATED \<and>
   length (history (snd (processAlert default_env 1000 fatigue_service fatigue_rested))) \<le>
     Suc (length (history fatigue_rested))"
proof -
  have h: "map_of (rules fatigue_service) (sourceType fatigue_rested) = Some fatigue_rule"
    by code_simp
  have esc: "checkEscalationRules default_env 1000 fatigue_rested fatigue_rule
      (getAllAlerts (storageManager fatigue_service)) =
      Some (Escalate CRITICAL ''1 driver_fatigue alerts in 30 minutes'')"
    by code_simp
  have ac: "is_auto_close (checkAutoCloseRules fatigue_rested fatigue_rule)"
    by code_simp
  from evaluation_first_match_wins[where svc = fatigue_service and a = fatigue_rested
      and e = default_env and now = 1000]
  have "evaluateAlert default_env 1000 (rules fatigue_service) fatigue_rested
          (getAllAlerts (storageManager fatigue_service)) =
          Some (Escalate CRITICAL ''1 driver_fatigue alerts in 30 minutes'') \<and>
        (\<exists>reason. snd (processAlert default_env 1000 fatigue_service fatigue_rested) =
           escalate 1000 (escalate_to_severity fatigue_rule) reason fatigue_rested) \<and>
        length (history (snd (processAlert default_env 1000 fatigue_service fatigue_rested))) \<le>
          Suc (length (history fatigue_rested))"
    by (auto simp: h esc)
  then show ?thesis
    using h ac by (auto simp: esc is_escalate_def)
qed

section \<open>The auto-close condition\<close>

lemma checkAutoCloseRules_iff:
  "is_auto_close (checkAutoCloseRules a r) \<longleftrightarrow>
     (\<exists>c. auto_close_if r = Some c \<and> c \<noteq> [] \<and>
        (map_of (metadata a) c = Some (JBool True) \<or>
         map_of (metadata a) c = Some (JStr ''true'')))"
  by (auto simp: checkAutoCloseRules_def is_auto_close_def split: option.splits)

text \<open>
  Claim C7, as amended. For an alert whose source type has a rule, evaluation yields an
  auto-close action exactly when the escalation check yields nothing and the metadata
  value under the very key that \<^verbatim>\<open>auto_close_if\<close> names is the boolean \<^verbatim>\<open>true\<close> or the
  string \<^verbatim>\<open>"true"\<close>. The three named keys (\<^verbatim>\<open>document_valid\<close>, \<^verbatim>\<open>document_renewed\<close>,
  \<^verbatim>\<open>maintenance_completed\<close>) are read under their own names like any other key; a flag
  under a different metadata field is not recognised.
\<close>

theorem auto_close_reads_the_named_key:
  assumes "map_of rs (sourceType a) = Some r"
  shows "is_auto_close (evaluateAlert e now rs a allAlerts) \<longleftrightarrow>
     checkEscalationRules e now a r allAlerts = None \<and>
     (\<exists>c. auto_close_if r = Some c \<and> c \<noteq> [] \<and>
        (map_of (metadata a) c = Some (JBool True) \<or>
         map_of (metadata a) c = Some (JStr ''true'')))"
proof (cases "checkEscalationRules e now a r allAlerts")
  case None
  with assms show ?thesis
    by (simp add: evaluateAlert_def checkAutoCloseRules_iff)
next
  case (Some act)
  then obtain reason where "act = Escalate (escalate_to_severity r) reason"
    using checkEscalationRules_Some by blast
  with Some assms show ?thesis
    by (simp add: evaluateAlert_def is_auto_close_def)
qed

text \<open>A compliance alert with \<^verbatim>\<open>document_valid: true\<close> is auto-closed on evaluation.\<close>

theorem auto_close_reads_the_named_key_witness:
  "map_of getDefaultRules (sourceType compliance_valid) = Some compliance_rule \<and>
   checkEscalationRules default_env 1000 compliance_valid compliance_rule [compliance_valid] =
     None \<and>
   map_of (metadata compliance_valid) ''document_valid'' = Some (JBool True) \<and>
   is_auto_close (evaluateAlert default_env 1000 getDefaultRules compliance_valid
     [compliance_valid])"
proof -
  have h: "map_of getDefaultRules (sourceType compliance_valid) = Some compliance_rule"
    by code_simp
  have n: "checkEscalationRules default_env 1000 compliance_valid compliance_rule
     [compliance_valid] = None"
    by code_simp
  have k: "auto_close_if compliance_rule = Some ''document_valid''" by code_simp
  have v: "map_of (metadata compliance_valid) ''document_valid'' = Some (JBool True)"
    by code_simp
  from auto_close_reads_the_named_key[OF h, of default_env 1000 "[compliance_valid]"]
  have "is_auto_close (evaluateAlert default_env 1000 getDefaultRules compliance_valid
     [compliance_valid])"
    by (simp add: n k v)
  with h n v show ?thesis by blast
qed

text \<open>The compliance rule names \<^verbatim>\<open>document_valid\<close>. An alert that carries the flag as
  \<^verbatim>\<open>documentValid: true\<close> and as \<^verbatim>\<open>document_renewed: true\<close> gets no action at all.\<close>

theorem differently_named_flag_counterexample:
  "map_of getDefaultRules (sourceType compliance_other_keys) = Some compliance_rule \<and>
   auto_close_if compliance_rule = Some ''document_valid'' \<and>
   map_of (metadata compliance_other_keys) ''documentValid'' = Some (JBool True) \<and>
   map_of (metadata compliance_other_keys) ''document_renewed'' = Some (JBool True) \<and>
   evaluateAlert default_env 1000 getDefaultRules compliance_other_keys
     [compliance_other_keys] = None"
  by code_simp

section \<open>Transition timestamps\<close>

lemma applyOp_resolvedAt:
  "resolvedAt (applyOp e a op) = (if isResolveOp op then Some (fst op) else resolvedAt a)"
  by (cases "(e, a, op)" rule: applyOp.cases)
     (simp_all add: escalate_def autoClose_def resolve_def expire_def addHistoryEvent_def)

lemma applyOp_expiredAt:
  "expiredAt (applyOp e a op) = (if isExpireOp op then Some (fst op) else expiredAt a)"
  by (cases "(e, a, op)" rule: applyOp.cases)
     (simp_all add: escalate_def autoClose_def resolve_def expire_def addHistoryEvent_def)

lemma applyOps_resolvedAt_kept:
  "resolvedAt a \<noteq> None \<Longrightarrow> resolvedAt (applyOps e a ops) \<noteq> None"
  unfolding applyOps_def
  by (induction ops arbitrary: a) (simp_all add: applyOp_resolvedAt)

lemma applyOps_expiredAt_kept:
  "expiredAt a \<noteq> None \<Longrightarrow> expiredAt (applyOps e a ops) \<noteq> None"
  unfolding applyOps_def
  by (induction ops arbitrary: a) (simp_all add: applyOp_expiredAt)

lemma applyOps_resolvedAt_same:
  "filter isResolveOp ops = [] \<Longrightarrow> resolvedAt (applyOps e a ops) = resolvedAt a"
  unfolding applyOps_def
  by (induction ops arbitrary: a) (simp_all add: applyOp_resolvedAt split: if_splits)

lemma applyOps_expiredAt_same:
  "filter isExpireOp ops = [] \<Longrightarrow> expiredAt (applyOps e a ops) = expiredAt a"
  unfolding applyOps_def
  by (induction ops arbitrary: a) (simp_all add: applyOp_expiredAt split: if_splits)

text \<open>
  Claim C8, as amended. \<^verbatim>\<open>resolve\<close> sets \<^verbatim>\<open>resolvedAt\<close>, and \<^verbatim>\<open>expire\<close> sets \<^verbatim>\<open>expiredAt\<close>, to
  the time of the call. Over any sequence of later operations on the alert, a timestamp
  that is set is never cleared, and it keeps its value as long as the sequence holds no
  further call of the same transition; every further \<^verbatim>\<open>resolve\<close> (or \<^verbatim>\<open>expire\<close>) writes the
  timestamp anew.
\<close>

theorem transition_timestamps_never_cleared:
  "resolvedAt (resolve now res b) = Some now \<and>
   expiredAt (expire e now b) = Some now \<and>
   (resolvedAt a \<noteq> None \<longrightarrow> resolvedAt (applyOps e a ops) \<noteq> None) \<and>
   (expiredAt a \<noteq> None \<longrightarrow> expiredAt (applyOps e a ops) \<noteq> None) \<and>
   (filter isResolveOp ops = [] \<longrightarrow> resolvedAt (applyOps e a ops) = resolvedAt a) \<and>
   (filter isExpireOp ops = [] \<longrightarrow> expiredAt (applyOps e a ops) = expiredAt a)"
  using applyOps_resolvedAt_kept[of a e ops] applyOps_expiredAt_kept[of a e ops]
    applyOps_resolvedAt_same[of ops e a] applyOps_expiredAt_same[of ops e a]
  by (simp add: resolve_def expire_def addHistoryEvent_def)

text \<open>The overspeed alert escalated at 3000 is resolved at 5000; a metadata update, an
  auto-close, an escalation and an expiry follow. \<^verbatim>\<open>resolvedAt\<close> stays 5000 and
  \<^verbatim>\<open>expiredAt\<close> is the time of the one expiry.\<close>

theorem transition_timestamps_never_cleared_witness:
  "resolvedAt (resolve 5000 None (snd overspeed_3)) \<noteq> None \<and>
   filter isResolveOp
     [(6000, OpSetMetadata md_drv001), (7000, OpAutoClose ''closed''),
      (8000, OpEscalate HIGH ''again''), (9000, OpExpire)] = [] \<and>
   resolvedAt (applyOps default_env (resolve 5000 None (snd overspeed_3))
     [(6000, OpSetMetadata md_drv001), (7000, OpAutoClose ''closed''),
      (8000, OpEscalate HIGH ''again''), (9000, OpExpire)]) = Some 5000 \<and>
   expiredAt (applyOps default_env (resolve 5000 None (snd overspeed_3))
     [(6000, OpSetMetadata md_drv001), (7000, OpAutoClose ''closed''),
      (8000, OpEscalate HIGH ''again''), (9000, OpExpire)]) = Some 9000"
proof -
  have f: "filter isResolveOp
     [(6000, OpSetMetadata md_drv001), (7000, OpAutoClose ''closed''),
      (8000, OpEscalate HIGH ''again''), (9000, OpExpire)] = []"
    by simp
  have x: "expiredAt (applyOps default_env (resolve 5000 None (snd overspeed_3))
     [(6000, OpSetMetadata md_drv001), (7000, OpAutoClose ''closed''),
      (8000, OpEscalate HIGH ''again''), (9000, OpExpire)]) = Some 9000"
    by code_simp
  from transition_timestamps_never_cleared[of 5000 None "snd overspeed_3" default_env
      "resolve 5000 None (snd overspeed_3)"
      "[(6000, OpSetMetadata md_drv001), (7000, OpAutoClose ''closed''),
        (8000, OpEscalate HIGH ''again''), (9000, OpExpire)]"] f x
  show ?thesis by simp
qed

text \<open>\<^verbatim>\<open>resolveAlert\<close> on the alert that was resolved at 2000, called again at 5000,
  overwrites \<^verbatim>\<open>resolvedAt\<close>.\<close>

theorem second_resolve_overwrites_counterexample:
  "map_option resolvedAt (snd compliance_resolved) = Some (Some 2000) \<and>
   map_option resolvedAt (snd compliance_resolved_again) = Some (Some 5000) \<and>
   map resolvedAt (getAllAlerts (storageManager (fst compliance_resolved_again))) =
     [Some 5000]"
  by code_simp

section \<open>Alerts without identifiers, and the alert's own count\<close>

text \<open>
  Claim C9. For two alerts of the same source type whose metadata has neither \<^verbatim>\<open>driverId\<close>
  nor \<^verbatim>\<open>vehicleId\<close>, the identifier test of the filter holds (absent equals absent): whether
  one matches the other is decided by activity and by the filter's window test
  \<^verbatim>\<open>new Date(a.timestamp) >= windowStart\<close> alone. So every active identifier-less alert of
  the source type that passes the window test is counted for an identifier-less subject.
\<close>

theorem identifierless_alerts_match_each_other:
  assumes "map_of (metadata a) ''driverId'' = None" and "map_of (metadata a) ''vehicleId'' = None"
    and "map_of (metadata b) ''driverId'' = None" and "map_of (metadata b) ''vehicleId'' = None"
    and "sourceType b = sourceType a"
  shows "matchesAlert now w a b =
           (isActive b \<and> date_ge (timestamp b) (now - w * 60 * 1000)) \<and>
         matchesAlert now w b a =
           (isActive a \<and> date_ge (timestamp a) (now - w * 60 * 1000)) \<and>
         length (filter (\<lambda>x.
             sourceType x = sourceType a \<and> isActive x \<and>
             date_ge (timestamp x) (now - w * 60 * 1000) \<and>
             map_of (metadata x) ''driverId'' = None \<and>
             map_of (metadata x) ''vehicleId'' = None) allAlerts)
           \<le> length (recentAlerts now w a allAlerts)"
proof -
  have "length (filter (\<lambda>x.
             sourceType x = sourceType a \<and> isActive x \<and>
             date_ge (timestamp x) (now - w * 60 * 1000) \<and>
             map_of (metadata x) ''driverId'' = None \<and>
             map_of (metadata x) ''vehicleId'' = None) allAlerts)
           \<le> length (recentAlerts now w a allAlerts)"
    unfolding recentAlerts_def
    by (rule length_filter_mono) (simp add: matchesAlert_def assms(1))
  then show ?thesis
    using assms by (simp add: matchesAlert_def)
qed

text \<open>Two feedback alerts from different customers, neither with a driver or a vehicle:
  each matches the other, and the second reaches the threshold of two and is escalated.\<close>

theorem identifierless_alerts_match_each_other_witness:
  "map_of (metadata feedback_2) ''driverId'' = None \<and>
   map_of (metadata feedback_1) ''vehicleId'' = None \<and>
   sourceType feedback_1 = sourceType feedback_2 \<and>
   matchesAlert 2000 1440 feedback_2 feedback_1 \<and>
   matchesAlert 2000 1440 feedback_1 feedback_2 \<and>
   2 \<le> length (recentAlerts 2000 1440 feedback_2 [feedback_1, feedback_2]) \<and>
   evaluateAlert default_env 2000 getDefaultRules feedback_2 [feedback_1, feedback_2] =
     Some (Escalate HIGH ''2 feedback_negative alerts in 1440 minutes'')"
proof -
  have a1: "map_of (metadata feedback_2) ''driverId'' = None" by code_simp
  have a2: "map_of (metadata feedback_2) ''vehicleId'' = None" by code_simp
  have b1: "map_of (metadata feedback_1) ''driverId'' = None" by code_simp
  have b2: "map_of (metadata feedback_1) ''vehicleId'' = None" by code_simp
  have ty: "sourceType feedback_1 = sourceType feedback_2" by code_simp
  have act: "isActive feedback_1 \<and> isActive feedback_2 \<and>
     date_ge (timestamp feedback_1) (2000 - 1440 * 60 * 1000) \<and>
     date_ge (timestamp feedback_2) (2000 - 1440 * 60 * 1000)"
    by code_simp
  have cnt: "length (filter (\<lambda>x.
             sourceType x = sourceType feedback_2 \<and> isActive x \<and>
             date_ge (timestamp x) (2000 - 1440 * 60 * 1000) \<and>
             map_of (metadata x) ''driverId'' = None \<and>
             map_of (metadata x) ''vehicleId'' = None) [feedback_1, feedback_2]) = 2"
    by code_simp
  have ev: "evaluateAlert default_env 2000 getDefaultRules feedback_2 [feedback_1, feedback_2] =
     Some (Escalate HIGH ''2 feedback_negative alerts in 1440 minutes'')"
    by code_simp
  from identifierless_alerts_match_each_other[OF a1 a2 b1 b2 ty, of 2000 1440
      "[feedback_1, feedback_2]"] act cnt
  have "matchesAlert 2000 1440 feedback_2 feedback_1 \<and>
        matchesAlert 2000 1440 feedback_1 feedback_2 \<and>
        2 \<le> length (recentAlerts 2000 1440 feedback_2 [feedback_1, feedback_2])"
    by simp
  with a1 b2 ty ev show ?thesis by blast
qed

text \<open>
  Claim C10. \<^verbatim>\<open>createAlert\<close> saves the new alert and then evaluates it against a snapshot
  read after the save, and the filter has no test that leaves the subject out. Take a
  count-in-window rule with \<^verbatim>\<open>escalate_if_count\<close> = 1 and a window of \<open>w > 0\<close> minutes, ending
  at the clock reading \<open>now\<close> and starting at a date (\<^verbatim>\<open>new Date(Date.now() - window_mins *
  60 * 1000)\<close> is not an Invalid Date). Then the new alert is among its own recent alerts,
  whatever else the store holds, and it comes back from \<^verbatim>\<open>createAlert\<close> ESCALATED with the
  rule's severity.
\<close>

theorem new_alert_counts_itself:
  assumes "map_of (rules svc) srcType = Some r"
    and "escalate_if_count r = Some 1"
    and "window_mins r = Some w" and "0 < w"
    and "validDate now" and "validDate (now - w * 60 * 1000)"
  shows "newAlert uuid now srcType sev md \<in>
           set (recentAlerts now w (newAlert uuid now srcType sev md)
                 (getAllAlerts
                   (saveAlert (newAlert uuid now srcType sev md) (storageManager svc)))) \<and>
         status (snd (createAlert e now uuid svc srcType sev md)) = ESCALATED \<and>
         severity (snd (createAlert e now uuid svc srcType sev md)) = escalate_to_severity r"
proof -
  let ?a = "newAlert uuid now srcType sev md"
  let ?all = "getAllAlerts (saveAlert ?a (storageManager svc))"
  have "date_ge now (now - w * 60 * 1000)"
    using assms(4,5,6) by (simp add: date_ge_def)
  then have m: "matchesAlert now w ?a ?a"
    by (simp add: matchesAlert_def isActive_def)
  have mem: "?a \<in> set (recentAlerts now w ?a ?all)"
    using m saved_in_getAllAlerts[of ?a] by (simp add: recentAlerts_def)
  then have "0 < length (recentAlerts now w ?a ?all)"
    by (cases "recentAlerts now w ?a ?all") auto
  then have "1 \<le> int (length (recentAlerts now w ?a ?all))" by linarith
  from countEscalation_fires[OF assms(2) _ assms(3) _ this] assms(4)
  obtain reason where
    c: "countEscalation now ?a r ?all = Some (Escalate (escalate_to_severity r) reason)"
    by auto
  have "evaluateAlert e now (rules svc) ?a ?all = Some (Escalate (escalate_to_severity r) reason)"
    using assms(1) c by (simp add: evaluateAlert_def checkEscalationRules_def canEscalate_def)
  then have "snd (createAlert e now uuid svc srcType sev md) =
      escalate now (escalate_to_severity r) reason ?a"
    by (simp add: createAlert_def processAlert_def Let_def executeAction_def)
  with mem show ?thesis by simp
qed

text \<open>A single fatigue alert (count 1, window 30) created in an empty store: the snapshot
  holds that alert alone, and it is escalated to CRITICAL at once.\<close>

theorem new_alert_counts_itself_witness:
  "map_of (rules (newService False)) ''driver_fatigue'' = Some fatigue_rule \<and>
   escalate_if_count fatigue_rule = Some 1 \<and> window_mins fatigue_rule = Some 30 \<and>
   validDate 1000 \<and> validDate (1000 - 30 * 60 * 1000) \<and>
   getAllAlerts (storageManager (newService False)) = [] \<and>
   recentAlerts 1000 30 (newAlert ''d1'' 1000 ''driver_fatigue'' (Some LOW) None)
     (getAllAlerts (saveAlert (newAlert ''d1'' 1000 ''driver_fatigue'' (Some LOW) None)
        (storageManager (newService False)))) =
     [newAlert ''d1'' 1000 ''driver_fatigue'' (Some LOW) None] \<and>
   status (snd (createAlert default_env 1000 ''d1'' (newService False) ''driver_fatigue''
     (Some LOW) None)) = ESCALATED \<and>
   severity (snd (createAlert default_env 1000 ''d1'' (newService False) ''driver_fatigue''
     (Some LOW) None)) = CRITICAL"
proof -
  have h1: "map_of (rules (newService False)) ''driver_fatigue'' = Some fatigue_rule"
    by code_simp
  have h2: "escalate_if_count fatigue_rule = Some 1" by code_simp
  have h3: "window_mins fatigue_rule = Some 30" by code_simp
  have v1: "validDate 1000" by (simp add: validDate_def)
  have v2: "validDate (1000 - 30 * 60 * 1000)" by (simp add: validDate_def)
  have sev: "escalate_to_severity fatigue_rule = CRITICAL" by code_simp
  have emp: "getAllAlerts (storageManager (newService False)) = []" by code_simp
  have rec: "recentAlerts 1000 30 (newAlert ''d1'' 1000 ''driver_fatigue'' (Some LOW) None)
     (getAllAlerts (saveAlert (newAlert ''d1'' 1000 ''driver_fatigue'' (Some LOW) None)
        (storageManager (newService False)))) =
     [newAlert ''d1'' 1000 ''driver_fatigue'' (Some LOW) None]"
    by code_simp
  from new_alert_counts_itself[OF h1 h2 h3 _ v1 v2, of "''d1''" "Some LOW" None default_env]
  have "status (snd (createAlert default_env 1000 ''d1'' (newService False) ''driver_fatigue''
          (Some LOW) None)) = ESCALATED \<and>
        severity (snd (createAlert default_env 1000 ''d1'' (newService False) ''driver_fatigue''
          (Some LOW) None)) = CRITICAL"
    by (simp add: sev)
  with h1 h2 h3 v1 v2 emp rec show ?thesis by blast
qed

section \<open>Further properties of resolution and of the sweeps\<close>

text \<open>
  \<^verbatim>\<open>resolve\<close> sets RESOLVED from any status, stamps \<^verbatim>\<open>resolvedAt\<close> and records one event
  with the previous status; \<^verbatim>\<open>resolveAlert\<close> applies it to the stored alert of the given
  identifier and saves the result.
\<close>

theorem resolve_from_any_status:
  assumes "getAlert (storageManager svc) aid = Some a"
  shows "status (resolve now res a) = RESOLVED \<and>
         resolvedAt (resolve now res a) = Some now \<and>
         length (history (resolve now res a)) = Suc (length (history a)) \<and>
         previousStatus (last (history (resolve now res a))) = Some (status a) \<and>
         snd (resolveAlert now svc aid res) = Some (resolve now res a) \<and>
         resolve now res a \<in> set (getAllAlerts (storageManager (fst (resolveAlert now svc aid res))))"
  using assms saved_in_getAllAlerts[of "resolve now res a" "storageManager svc"]
  by (simp add: resolveAlert_def Let_def resolve_def addHistoryEvent_def)


theorem resolve_from_any_status_witness:
  "getAlert (storageManager (fst compliance_renewed)) ''c1'' \<noteq> None \<and>
   map_option status (getAlert (storageManager (fst compliance_renewed)) ''c1'') =
     Some AUTO_CLOSED \<and>
   map_option status (snd (resolveAlert 6000 (fst compliance_renewed) ''c1'' None)) =
     Some RESOLVED \<and>
   map status (getAllAlerts (storageManager
     (fst (resolveAlert 6000 (fst compliance_renewed) ''c1'' None)))) = [RESOLVED]"
proof -
  obtain a where a: "getAlert (storageManager (fst compliance_renewed)) ''c1'' = Some a"
    and st: "status a = AUTO_CLOSED"
  proof -
    have "map_option status (getAlert (storageManager (fst compliance_renewed)) ''c1'') =
      Some AUTO_CLOSED" by code_simp
    then show ?thesis using that by auto
  qed
  have all: "map status (getAllAlerts (storageManager
     (fst (resolveAlert 6000 (fst compliance_renewed) ''c1'' None)))) = [RESOLVED]"
    by code_simp
  from resolve_from_any_status[OF a, of 6000 None]
  have "map_option status (snd (resolveAlert 6000 (fst compliance_renewed) ''c1'' None)) =
     Some RESOLVED"
    by simp
  with a st all show ?thesis by simp
qed

text \<open>
  Neither sweep touches an alert that is not active: in a well-formed store such an alert
  is still stored, unchanged, after the re-evaluation sweep, after the expiry sweep and
  after the whole job.
\<close>

theorem sweeps_skip_inactive_alerts:
  assumes "wellFormed (storageManager svc)" and "b \<in> set (getAllAlerts (storageManager svc))"
    and "\<not> isActive b"
  shows "b \<in> set (getAllAlerts (storageManager (processAllAlerts e now svc))) \<and>
         b \<in> set (getAllAlerts (storageManager (expireOldAlerts e now svc))) \<and>
         b \<in> set (getAllAlerts (storageManager (backgroundJob e now svc))) \<and>
         wellFormed (storageManager (backgroundJob e now svc))"
proof -
  have p: "b \<in> set (getAllAlerts (storageManager (processAllAlerts e now svc)))"
    using assms by (rule sweep_keeps_inactive)
  have w: "wellFormed (storageManager (processAllAlerts e now svc))"
    using assms(1) by (rule wellFormed_processAllAlerts)
  have "b \<in> set (getAllAlerts (storageManager (backgroundJob e now svc)))"
    unfolding backgroundJob_def using w p assms(3) by (rule expiry_keeps_inactive)
  moreover have "wellFormed (storageManager (backgroundJob e now svc))"
    unfolding backgroundJob_def using w by (rule wellFormed_expireOldAlerts)
  ultimately show ?thesis
    using p expiry_keeps_inactive[OF assms] by simp
qed


text \<open>The compliance alert resolved at 2000 is found unchanged after a job run forty days
  later, past the age threshold of its rule and past the retention period.\<close>

theorem sweeps_skip_inactive_alerts_witness:
  "wellFormed (storageManager (fst compliance_resolved)) \<and>
   map status (getAllAlerts (storageManager (fst compliance_resolved))) = [RESOLVED] \<and>
   getAllAlerts (storageManager (backgroundJob default_env 3456000000 (fst compliance_resolved))) =
     getAllAlerts (storageManager (fst compliance_resolved))"
proof -
  have wf: "wellFormed (storageManager (fst compliance_resolved))" by code_simp
  obtain b where b: "getAllAlerts (storageManager (fst compliance_resolved)) = [b]"
    and st: "status b = RESOLVED"
  proof -
    have "map status (getAllAlerts (storageManager (fst compliance_resolved))) = [RESOLVED]"
      by code_simp
    then show ?thesis using that by auto
  qed
  have len: "length (getAllAlerts (storageManager
      (backgroundJob default_env 3456000000 (fst compliance_resolved)))) = 1"
    by code_simp
  from sweeps_skip_inactive_alerts[OF wf, of b default_env 3456000000] b st
  have "b \<in> set (getAllAlerts (storageManager
      (backgroundJob default_env 3456000000 (fst compliance_resolved))))"
    by (simp add: isActive_def)
  with len have "getAllAlerts (storageManager
      (backgroundJob default_env 3456000000 (fst compliance_resolved))) = [b]"
    by (cases "getAllAlerts (storageManager
      (backgroundJob default_env 3456000000 (fst compliance_resolved)))") auto
  with wf b st show ?thesis by simp
qed

end
